theory Spec2Isabelle
  imports Main "HOL-Library.Sublist"
begin

section \<open>Python strings\<close>

text \<open>
  A Python \<open>str\<close> is modelled as a \<open>string\<close>. \<open>s.startswith(p)\<close> is \<open>prefix p s\<close>,
  \<open>s[3:]\<close> is \<open>drop 3 s\<close>, \<open>c in s\<close> is \<open>c \<in> set s\<close>, and an f-string is the
  concatenation of its pieces. All separators the program splits on are single characters.

  \<open>s.split(sep)\<close> scans \<open>s\<close> from the left and cuts at every \<open>sep\<close>; \<open>cur\<close> is the
  field collected since the last cut. The result always has at least one field.
\<close>

fun split_from :: "char \<Rightarrow> string \<Rightarrow> string \<Rightarrow> string list" where
  "split_from sep cur [] = [cur]"
| "split_from sep cur (c # cs) =
     (if c = sep then cur # split_from sep [] cs else split_from sep (cur @ [c]) cs)"

definition split :: "char \<Rightarrow> string \<Rightarrow> string list" where
  "split sep s = split_from sep [] s"

text \<open>
  \<open>s.split(sep, maxsplit)\<close> cuts at the first \<open>maxsplit\<close> occurrences only; what follows
  the last cut stays in the last field, separators included.
\<close>

fun splitn_from :: "char \<Rightarrow> nat \<Rightarrow> string \<Rightarrow> string \<Rightarrow> string list" where
  "splitn_from sep n cur [] = [cur]"
| "splitn_from sep n cur (c # cs) =
     (if c = sep \<and> 0 < n then cur # splitn_from sep (n - 1) [] cs
      else splitn_from sep n (cur @ [c]) cs)"

definition splitn :: "char \<Rightarrow> nat \<Rightarrow> string \<Rightarrow> string list" where
  "splitn sep maxsplit s = splitn_from sep maxsplit [] s"

text \<open>\<open>s.replace(old, new)\<close> for single characters.\<close>

definition replace :: "char \<Rightarrow> char \<Rightarrow> string \<Rightarrow> string" where
  "replace old new s = map (\<lambda>c. if c = old then new else c) s"

section \<open>Regular expressions\<close>

text \<open>
  The patterns of Python's \<open>re\<close> module that the program uses: a literal character, the
  class \<open>\d\<close>, concatenation, \<open>?\<close> and \<open>+\<close>. \<open>Star\<close>, \<open>Alt\<close>, \<open>Eps\<close> and \<open>Void\<close>
  are what the derivative of such a pattern is made of. Strings are taken over the ASCII
  alphabet, where \<open>\d\<close> is \<open>0\<close> to \<open>9\<close>.
\<close>

datatype regex =
    Void
  | Eps
  | Chr char
  | Digit
  | Alt regex regex
  | Cat regex regex
  | Star regex

definition Opt :: "regex \<Rightarrow> regex" where
  "Opt r = Alt r Eps"

definition Plus :: "regex \<Rightarrow> regex" where
  "Plus r = Cat r (Star r)"

definition is_digit :: "char \<Rightarrow> bool" where
  "is_digit c = (c \<in> set ''0123456789'')"

fun nullable :: "regex \<Rightarrow> bool" where
  "nullable Void = False"
| "nullable Eps = True"
| "nullable (Chr a) = False"
| "nullable Digit = False"
| "nullable (Alt r s) = (nullable r \<or> nullable s)"
| "nullable (Cat r s) = (nullable r \<and> nullable s)"
| "nullable (Star r) = True"

fun deriv :: "char \<Rightarrow> regex \<Rightarrow> regex" where
  "deriv c Void = Void"
| "deriv c Eps = Void"
| "deriv c (Chr a) = (if c = a then Eps else Void)"
| "deriv c Digit = (if is_digit c then Eps else Void)"
| "deriv c (Alt r s) = Alt (deriv c r) (deriv c s)"
| "deriv c (Cat r s) =
     (if nullable r then Alt (Cat (deriv c r) s) (deriv c s) else Cat (deriv c r) s)"
| "deriv c (Star r) = Cat (deriv c r) (Star r)"

text \<open>
  \<open>re.match(pattern, s)\<close> succeeds when the pattern matches some prefix of \<open>s\<close> (it is
  anchored at the start only, so a leading \<open>^\<close> adds nothing); \<open>bool(...)\<close> of its
  result is \<open>re_match\<close>.
\<close>

fun re_match :: "regex \<Rightarrow> string \<Rightarrow> bool" where
  "re_match r [] = nullable r"
| "re_match r (c # cs) = (nullable r \<or> re_match (deriv c r) cs)"

text \<open>
  What it means for a pattern to match a whole string, rule by rule; \<open>re_match\<close> is
  related to it below.
\<close>

inductive matches :: "regex \<Rightarrow> string \<Rightarrow> bool" where
  m_eps: "matches Eps []"
| m_chr: "matches (Chr a) [a]"
| m_digit: "is_digit c \<Longrightarrow> matches Digit [c]"
| m_left: "matches r u \<Longrightarrow> matches (Alt r s) u"
| m_right: "matches s u \<Longrightarrow> matches (Alt r s) u"
| m_cat: "matches r u \<Longrightarrow> matches s v \<Longrightarrow> matches (Cat r s) (u @ v)"
| m_done: "matches (Star r) []"
| m_again: "matches r u \<Longrightarrow> matches (Star r) v \<Longrightarrow> matches (Star r) (u @ v)"

section \<open>Errors, the environment and the world\<close>

text \<open>The exceptions that the program raises or that reach it from its libraries.\<close>

datatype exn =
    ValueError string
  | RequestException
  | JSONDecodeError
  | KeyError string
  | OSError
  | DownloadError

text \<open>
  What \<open>requests.get(url, timeout=5)\<close> gives: it raises (no connection, timeout), or it
  returns a response with a status code and a body; the body is \<open>None\<close> when
  \<open>response.json()\<close> raises, and otherwise the JSON object as a map from keys to
  values; the values are strings, as \<open>tag_name\<close> is in the answers of the release API.
\<close>

datatype http_result =
    Raises exn
  | Response nat "(string \<rightharpoonup> string) option"

text \<open>What \<open>subprocess.run(['copier'] + copier_args)\<close> gives.\<close>

datatype proc_result =
    Completed int
  | RaisesFileNotFound
  | RaisesOther exn

datatype message =
    MsgRefreshing string string string string
  | MsgUsingCached string string string string
  | MsgUsage
  | MsgFetchFailed string exn
  | MsgBlank
  | MsgCopierNotFound
  | MsgCopierError exn
  | MsgCopied string string

datatype event =
    HttpGet string
  | Unlink string
  | Retrieve string string string
  | Mkdir string
  | Run "string list"
  | Print message

text \<open>
  The world is the cache's regular files (path to content) and the effects so far, oldest
  first. A \<open>Path\<close> is modelled by its string. \<open>Path.exists\<close> looks the path up and
  \<open>Path.unlink\<close> removes the file, which it is taken to be allowed to do; directories at
  a cache path are not modelled.
\<close>

record world =
  files :: "string \<rightharpoonup> string"
  events :: "event list"

text \<open>
  The libraries and the machine the program runs on are parameters. \<open>http_get\<close> may answer
  differently at different moments; the moment is the number of effects so far.
  \<open>pooch_retrieve url path fname fs\<close> is \<open>pooch.retrieve(url, known_hash=None, path, fname)\<close>
  on the files \<open>fs\<close>: it raises or returns the local path, and gives the files after it.
  \<open>joinpath\<close> is the operator \<open>/\<close> of \<open>pathlib\<close>, \<open>home\<close> is \<open>Path.home()\<close>, and
  \<open>mkdir\<close> is \<open>Path.mkdir(parents=True, exist_ok=True)\<close>, which may raise.
\<close>

record env =
  http_get :: "nat \<Rightarrow> string \<Rightarrow> http_result"
  pooch_retrieve :: "string \<Rightarrow> string \<Rightarrow> string \<Rightarrow> (string \<rightharpoonup> string)
                       \<Rightarrow> (exn + string) \<times> (string \<rightharpoonup> string)"
  joinpath :: "string \<Rightarrow> string \<Rightarrow> string"
  home :: string
  mkdir :: "string \<Rightarrow> exn option"
  subprocess_run :: "string list \<Rightarrow> proc_result"

definition emit :: "event \<Rightarrow> world \<Rightarrow> world" where
  "emit e w = w\<lparr>events := events w @ [e]\<rparr>"

definition exists :: "world \<Rightarrow> string \<Rightarrow> bool" where
  "exists w p = (files w p \<noteq> None)"

definition unlink :: "string \<Rightarrow> world \<Rightarrow> world" where
  "unlink p w = emit (Unlink p) (w\<lparr>files := (files w)(p := None)\<rparr>)"


section \<open>copier_wrapper.py\<close>

subsection \<open>get_stable_ref\<close>

text \<open>
  The body of the \<open>try\<close>: \<open>Inl\<close> when it raises, \<open>Inr (Some tag)\<close> when it returns,
  \<open>Inr None\<close> when the status is not 200 and control falls through.
\<close>

fun release_lookup :: "http_result \<Rightarrow> exn + string option" where
  "release_lookup (Raises e) = Inl e"
| "release_lookup (Response status_code body) =
     (if status_code = 200 then
        (case body of
           None \<Rightarrow> Inl JSONDecodeError
         | Some obj \<Rightarrow>
             (case obj ''tag_name'' of
                None \<Rightarrow> Inl (KeyError ''tag_name'')
              | Some tag \<Rightarrow> Inr (Some tag)))
      else Inr None)"

definition releases_url :: "string \<Rightarrow> string \<Rightarrow> string" where
  "releases_url owner repo =
     ''https://api.github.com/repos/'' @ owner @ ''/'' @ repo @ ''/releases/latest''"

definition get_stable_ref :: "env \<Rightarrow> string \<Rightarrow> string \<Rightarrow> world \<Rightarrow> string \<times> world" where
  "get_stable_ref e owner repo w =
     (let url = releases_url owner repo;
          w' = emit (HttpGet url) w
      in case release_lookup (http_get e (length (events w)) url) of
           Inr (Some tag) \<Rightarrow> (tag, w')
         | Inr None \<Rightarrow> (''master'', w')
         | Inl _ \<Rightarrow> (''master'', w'))"

subsection \<open>parse_github_path\<close>

definition format_error :: "string \<Rightarrow> string \<Rightarrow> exn" where
  "format_error path expected =
     ValueError (''Invalid GitHub path format: '' @ path @ ''. Expected: '' @ expected)"

definition parse_github_path ::
  "env \<Rightarrow> string \<Rightarrow> world \<Rightarrow> (exn + string \<times> string \<times> string \<times> string) \<times> world" where
  "parse_github_path e path w =
     (if \<not> prefix ''gh:'' path then
        (Inl (format_error path ''gh:owner/repo@ref/filepath''), w)
      else
        let path_without_prefix = drop 3 path in
        if CHR ''@'' \<in> set path_without_prefix then
          (case splitn (CHR ''@'') 1 path_without_prefix of
             [repo_part, rest] \<Rightarrow>
               (case split (CHR ''/'') repo_part of
                  [owner, repo] \<Rightarrow>
                    (case splitn (CHR ''/'') 1 rest of
                       [ref, filepath] \<Rightarrow> (Inr (owner, repo, ref, filepath), w)
                     | _ \<Rightarrow> (Inl (format_error path ''gh:owner/repo@ref/filepath''), w))
                | _ \<Rightarrow> (Inl (format_error path ''gh:owner/repo@ref/filepath''), w))
           | _ \<Rightarrow> (Inl (ValueError ''not enough values to unpack''), w))
        else
          (case splitn (CHR ''/'') 2 path_without_prefix of
             [owner, repo, filepath] \<Rightarrow>
               (case get_stable_ref e owner repo w of
                  (ref, w') \<Rightarrow> (Inr (owner, repo, ref, filepath), w'))
           | _ \<Rightarrow> (Inl (format_error path ''gh:owner/repo/filepath''), w)))"

subsection \<open>fetch_github_file\<close>

definition raw_url :: "string \<Rightarrow> string \<Rightarrow> string \<Rightarrow> string \<Rightarrow> string" where
  "raw_url owner repo ref filepath =
     ''https://raw.githubusercontent.com/'' @ owner @ ''/'' @ repo @ ''/refs/heads/'' @ ref
       @ ''/'' @ filepath"

definition cache_filename :: "string \<Rightarrow> string \<Rightarrow> string" where
  "cache_filename ref filepath = ref @ ''_'' @ replace (CHR ''/'') (CHR ''_'') filepath"

text \<open>The pattern \<open>^v?\d+\.\d+\<close>.\<close>

definition release_tag_re :: regex where
  "release_tag_re =
     Cat (Opt (Chr (CHR ''v''))) (Cat (Plus Digit) (Cat (Chr (CHR ''.'')) (Plus Digit)))"

definition is_release_tag :: "string \<Rightarrow> bool" where
  "is_release_tag ref = re_match release_tag_re ref"

text \<open>
  The classification rule in the words of the specification: the token starts with an
  optional letter \<open>v\<close>, one or more digits, a dot, and one or more digits. What follows
  is free.
\<close>

definition semver_like :: "string \<Rightarrow> bool" where
  "semver_like t =
     (\<exists>v major minor rest.
        t = v @ major @ ''.'' @ minor @ rest \<and> (v = [] \<or> v = ''v'') \<and>
        major \<noteq> [] \<and> list_all is_digit major \<and> minor \<noteq> [] \<and> list_all is_digit minor)"

text \<open>The call of \<open>pooch.retrieve\<close>: the effect is recorded, the library does the rest.\<close>

definition retrieve :: "env \<Rightarrow> string \<Rightarrow> string \<Rightarrow> string \<Rightarrow> world \<Rightarrow> (exn + string) \<times> world" where
  "retrieve e url path fname w =
     (case pooch_retrieve e url path fname (files w) of
        (res, fs) \<Rightarrow> (res, emit (Retrieve url path fname) (w\<lparr>files := fs\<rparr>)))"

text \<open>
  What the program expects of \<open>pooch.retrieve\<close> when no hash is given: a file that is
  in the cache under the name is returned as it is, and nothing is downloaded.
\<close>

definition reuses_cached :: "env \<Rightarrow> bool" where
  "reuses_cached e =
     (\<forall>url path fname fs. fs (joinpath e path fname) \<noteq> None \<longrightarrow>
        pooch_retrieve e url path fname fs = (Inr (joinpath e path fname), fs))"

definition fetch_github_file :: "env \<Rightarrow> string \<Rightarrow> string \<Rightarrow> world \<Rightarrow> (exn + string) \<times> world" where
  "fetch_github_file e path cache_dir w =
     (case parse_github_path e path w of
        (Inl ex, w1) \<Rightarrow> (Inl ex, w1)
      | (Inr (owner, repo, ref, filepath), w1) \<Rightarrow>
          let url = raw_url owner repo ref filepath;
              fname = cache_filename ref filepath;
              cache_file_path = joinpath e cache_dir fname;
              w2 = (if \<not> is_release_tag ref \<and> exists w1 cache_file_path then
                      unlink cache_file_path
                        (emit (Print (MsgRefreshing filepath owner repo ref)) w1)
                    else if is_release_tag ref \<and> exists w1 cache_file_path then
                      emit (Print (MsgUsingCached filepath owner repo ref)) w1
                    else w1)
          in retrieve e url cache_dir fname w2)"

subsection \<open>main\<close>

text \<open>
  The loop over \<open>sys.argv[1:]\<close>: the arguments still to read, the arguments for copier
  so far and the value of \<open>--gh-data\<close> so far. \<open>None\<close> is the return inside the loop,
  when \<open>--gh-data\<close> is read and nothing follows it.
\<close>

fun scan_args ::
  "string list \<Rightarrow> string list \<Rightarrow> string option \<Rightarrow> (string list \<times> string option) option" where
  "scan_args [] copier_args github_data = Some (copier_args, github_data)"
| "scan_args (arg # rest) copier_args github_data =
     (if arg = ''--gh-data'' then
        (case rest of
           [] \<Rightarrow> None
         | v # rest' \<Rightarrow> scan_args rest' copier_args (Some v))
      else scan_args rest (copier_args @ [arg]) github_data)"

definition call_copier :: "env \<Rightarrow> string list \<Rightarrow> world \<Rightarrow> int \<times> world" where
  "call_copier e copier_args w =
     (let w' = emit (Run (''copier'' # copier_args)) w
      in case subprocess_run e (''copier'' # copier_args) of
           Completed returncode \<Rightarrow> (returncode, w')
         | RaisesFileNotFound \<Rightarrow> (1, emit (Print MsgCopierNotFound) w')
         | RaisesOther ex \<Rightarrow> (1, emit (Print (MsgCopierError ex)) w'))"

definition cache_dir_of :: "env \<Rightarrow> string \<Rightarrow> string \<Rightarrow> string" where
  "cache_dir_of e owner repo = joinpath e (joinpath e (joinpath e (home e) ''.cache'') owner) repo"

text \<open>The body of the \<open>try\<close> in \<open>main\<close>, up to \<open>local_file\<close>.\<close>

definition fetch_data :: "env \<Rightarrow> string \<Rightarrow> world \<Rightarrow> (exn + string) \<times> world" where
  "fetch_data e github_data w =
     (case parse_github_path e github_data w of
        (Inl ex, w1) \<Rightarrow> (Inl ex, w1)
      | (Inr (owner, repo, ref, _), w1) \<Rightarrow>
          let cache_dir = cache_dir_of e owner repo;
              w2 = emit (Mkdir cache_dir) w1
          in case mkdir e cache_dir of
               Some ex \<Rightarrow> (Inl ex, w2)
             | None \<Rightarrow> fetch_github_file e github_data cache_dir w2)"

definition main :: "env \<Rightarrow> string list \<Rightarrow> world \<Rightarrow> int \<times> world" where
  "main e argv w =
     (case scan_args (drop 1 argv) [] None of
        None \<Rightarrow> (1, emit (Print MsgUsage) w)
      | Some (copier_args, github_data) \<Rightarrow>
          (case github_data of
             None \<Rightarrow> call_copier e copier_args w
           | Some d \<Rightarrow>
               if d = [] then call_copier e copier_args w
               else if prefix ''gh:'' d then
                 (case fetch_data e d w of
                    (Inl ex, w1) \<Rightarrow> (1, emit (Print (MsgFetchFailed d ex)) w1)
                  | (Inr local_file, w1) \<Rightarrow>
                      call_copier e (copier_args @ [''--data-file'', local_file])
                        (emit (Print MsgBlank) w1))
               else call_copier e (copier_args @ [''--data-file'', d]) w))"

section \<open>copier_update.py\<close>

definition DEFAULT_BRANCH :: string where
  "DEFAULT_BRANCH = ''master''"

definition parse_github_url :: "string \<Rightarrow> exn + string \<times> string \<times> string" where
  "parse_github_url url =
     (if \<not> prefix ''gh:'' url then
        Inl (format_error url ''gh:owner/repo/path'')
      else
        (case splitn (CHR ''/'') 2 (drop 3 url) of
           [owner, repo, path] \<Rightarrow> Inr (owner @ ''/'' @ repo, DEFAULT_BRANCH, path)
         | _ \<Rightarrow> Inl (format_error url ''gh:owner/repo/path'')))"

definition fetch_project_data ::
  "env \<Rightarrow> string \<Rightarrow> string \<Rightarrow> string \<Rightarrow> string \<Rightarrow> world \<Rightarrow> (exn + string) \<times> world" where
  "fetch_project_data e repo branch filepath cache_dir w =
     (let base_url = ''https://raw.githubusercontent.com/'' @ repo @ ''/refs/heads/'' @ branch;
          url = base_url @ ''/'' @ filepath;
          fname = replace (CHR ''/'') (CHR ''_'') filepath
      in case retrieve e url cache_dir fname w of
           (Inl ex, w1) \<Rightarrow> (Inl ex, w1)
         | (Inr file_path, w1) \<Rightarrow> (Inr file_path, emit (Print (MsgCopied filepath repo)) w1))"

section \<open>Example machines\<close>

text \<open>
  A machine without network: every request raises, a retrieval succeeds only when the file
  is in the cache already, copier exits with 0.
\<close>

definition offline :: env where
  "offline =
     \<lparr>http_get = (\<lambda>n url. Raises RequestException),
      pooch_retrieve = (\<lambda>url path fname fs.
         if fs (path @ ''/'' @ fname) \<noteq> None then (Inr (path @ ''/'' @ fname), fs)
         else (Inl DownloadError, fs)),
      joinpath = (\<lambda>a b. a @ ''/'' @ b),
      home = ''/home/user'',
      mkdir = (\<lambda>d. None),
      subprocess_run = (\<lambda>args. Completed 0)\<rparr>"

definition w0 :: world where
  "w0 = \<lparr>files = Map.empty, events = []\<rparr>"

text \<open>
  A machine with network: the latest release of every repository is \<open>v1.2.0\<close>, a
  retrieval leaves a file that is in the cache as it is and writes a fresh one otherwise,
  copier exits with 0.
\<close>

definition online :: env where
  "online =
     \<lparr>http_get = (\<lambda>n url. Response 200 (Some [''tag_name'' \<mapsto> ''v1.2.0''])),
      pooch_retrieve = (\<lambda>url path fname fs.
         if fs (path @ ''/'' @ fname) \<noteq> None then (Inr (path @ ''/'' @ fname), fs)
         else (Inr (path @ ''/'' @ fname), fs(path @ ''/'' @ fname \<mapsto> ''fresh''))),
      joinpath = (\<lambda>a b. a @ ''/'' @ b),
      home = ''/home/user'',
      mkdir = (\<lambda>d. None),
      subprocess_run = (\<lambda>args. Completed 0)\<rparr>"

text \<open>A cache that holds an old copy of \<open>project.yaml\<close> for \<open>master\<close> and for \<open>v2.0.0\<close>.\<close>

definition cached :: world where
  "cached =
     \<lparr>files = [''/cache/master_project.yaml'' \<mapsto> ''old'',
               ''/cache/v2.0.0_project.yaml'' \<mapsto> ''old''],
      events = []\<rparr>"

section \<open>Splitting\<close>

lemma split_from_none: "sep \<notin> set s \<Longrightarrow> split_from sep cur s = [cur @ s]"
  by (induction s arbitrary: cur) auto

lemma split_from_first:
  "sep \<notin> set a \<Longrightarrow> split_from sep cur (a @ sep # b) = (cur @ a) # split_from sep [] b"
  by (induction a arbitrary: cur) auto

lemma splitn_from_none: "sep \<notin> set s \<Longrightarrow> splitn_from sep n cur s = [cur @ s]"
  by (induction s arbitrary: cur) auto

lemma splitn_from_zero: "splitn_from sep 0 cur s = [cur @ s]"
  by (induction s arbitrary: cur) auto

lemma splitn_from_first:
  "sep \<notin> set a \<Longrightarrow>
   splitn_from sep (Suc n) cur (a @ sep # b) = (cur @ a) # splitn_from sep n [] b"
  by (induction a arbitrary: cur) auto

lemma split_from_nonempty: "split_from sep cur s \<noteq> []"
  by (induction s arbitrary: cur) auto

lemma split_none: "sep \<notin> set s \<Longrightarrow> split sep s = [s]"
  by (simp add: split_def split_from_none)

lemma split_first: "sep \<notin> set a \<Longrightarrow> split sep (a @ sep # b) = a # split sep b"
  by (simp add: split_def split_from_first)

lemma split_nonempty: "split sep s \<noteq> []"
  by (simp add: split_def split_from_nonempty)

lemma first_sep_unique:
  "sep \<notin> set a \<Longrightarrow> sep \<notin> set x \<Longrightarrow> a @ sep # b = x @ sep # y \<Longrightarrow> a = x \<and> b = y"
proof (induction a arbitrary: x)
  case Nil
  then show ?case by (cases x) auto
next
  case (Cons c a)
  then show ?case by (cases x) auto
qed

lemma split_two:
  "(split sep s = [a, b]) = (s = a @ sep # b \<and> sep \<notin> set a \<and> sep \<notin> set b)"
proof (cases "sep \<in> set s")
  case False
  then show ?thesis by (auto simp: split_none)
next
  case True
  then obtain x y where s: "s = x @ sep # y" and x: "sep \<notin> set x"
    by (meson split_list_first)
  show ?thesis
  proof (cases "sep \<in> set y")
    case False
    with s x show ?thesis
      by (auto simp: split_first split_none dest: first_sep_unique)
  next
    case True
    then obtain u v where y: "y = u @ sep # v" and u: "sep \<notin> set u"
      by (meson split_list_first)
    have "split sep s = x # u # split sep v"
      using s x y u by (simp add: split_first)
    moreover have "split sep v \<noteq> []" by (rule split_nonempty)
    ultimately have "split sep s \<noteq> [a, b]" by auto
    moreover have "\<not> (s = a @ sep # b \<and> sep \<notin> set a \<and> sep \<notin> set b)"
    proof
      assume h: "s = a @ sep # b \<and> sep \<notin> set a \<and> sep \<notin> set b"
      then have "split sep s = [a, b]" by (simp add: split_first split_none)
      with \<open>split sep s \<noteq> [a, b]\<close> show False by simp
    qed
    ultimately show ?thesis by simp
  qed
qed

lemma splitn_none: "sep \<notin> set s \<Longrightarrow> splitn sep n s = [s]"
  by (simp add: splitn_def splitn_from_none)

lemma splitn_first:
  "sep \<notin> set a \<Longrightarrow> splitn sep (Suc n) (a @ sep # b) = a # splitn sep n b"
  by (simp add: splitn_def splitn_from_first)

lemma splitn_zero: "splitn sep 0 s = [s]"
  by (simp add: splitn_def splitn_from_zero)

lemma splitn_one_two:
  "(splitn sep (Suc 0) s = [a, b]) = (s = a @ sep # b \<and> sep \<notin> set a)"
proof (cases "sep \<in> set s")
  case False
  then show ?thesis by (auto simp: splitn_none)
next
  case True
  then obtain x y where s: "s = x @ sep # y" and x: "sep \<notin> set x"
    by (meson split_list_first)
  then have "splitn sep (Suc 0) s = [x, y]"
    using splitn_first [of sep x 0 y] by (simp add: splitn_zero)
  with s x show ?thesis by (auto dest: first_sep_unique)
qed

lemma splitn_two_three:
  "(splitn sep 2 s = [a, b, c]) = (s = a @ sep # b @ sep # c \<and> sep \<notin> set a \<and> sep \<notin> set b)"
proof (cases "sep \<in> set s")
  case False
  then show ?thesis by (auto simp: splitn_none)
next
  case True
  then obtain x y where s: "s = x @ sep # y" and x: "sep \<notin> set x"
    by (meson split_list_first)
  then have "splitn sep 2 s = x # splitn sep (Suc 0) y"
    using splitn_first [of sep x "Suc 0" y] by (simp add: numeral_2_eq_2)
  with s x show ?thesis
    using splitn_one_two [of sep y b c] by (auto dest: first_sep_unique)
qed


lemma length_split_from:
  "length (split_from sep cur s) = Suc (length (filter (\<lambda>c. c = sep) s))"
  by (induction s arbitrary: cur) auto

lemma length_split: "length (split sep s) = Suc (length (filter (\<lambda>c. c = sep) s))"
  by (simp add: split_def length_split_from)

lemma takeWhile_sep: "sep \<notin> set a \<Longrightarrow> takeWhile (\<lambda>c. c \<noteq> sep) (a @ sep # b) = a"
  by (induction a) auto

lemma dropWhile_sep: "sep \<notin> set a \<Longrightarrow> dropWhile (\<lambda>c. c \<noteq> sep) (a @ sep # b) = sep # b"
  by (induction a) auto

lemma split_two_parts:
  "length (filter (\<lambda>c. c = sep) s) = 1 \<Longrightarrow>
   split sep s = [takeWhile (\<lambda>c. c \<noteq> sep) s, drop 1 (dropWhile (\<lambda>c. c \<noteq> sep) s)]"
proof -
  assume h: "length (filter (\<lambda>c. c = sep) s) = 1"
  then have "length (split sep s) = 2" by (simp add: length_split)
  then obtain a b where ab: "split sep s = [a, b]"
    by (metis (no_types, opaque_lifting) One_nat_def Suc_1 length_0_conv length_Suc_conv)
  then have s: "s = a @ sep # b" and a: "sep \<notin> set a"
    by (simp_all add: split_two)
  from a have "takeWhile (\<lambda>c. c \<noteq> sep) s = a" unfolding s
    by (simp add: takeWhile_sep)
  moreover from a have "drop 1 (dropWhile (\<lambda>c. c \<noteq> sep) s) = b" unfolding s
    by (simp add: dropWhile_sep)
  ultimately show ?thesis using ab by simp
qed

lemma splitn_one_parts:
  "sep \<in> set s \<Longrightarrow>
   splitn sep (Suc 0) s = [takeWhile (\<lambda>c. c \<noteq> sep) s, drop 1 (dropWhile (\<lambda>c. c \<noteq> sep) s)]"
proof -
  assume "sep \<in> set s"
  then obtain a b where s: "s = a @ sep # b" and a: "sep \<notin> set a"
    by (meson split_list_first)
  from a have "takeWhile (\<lambda>c. c \<noteq> sep) s = a" unfolding s
    by (simp add: takeWhile_sep)
  moreover from a have "drop 1 (dropWhile (\<lambda>c. c \<noteq> sep) s) = b" unfolding s
    by (simp add: dropWhile_sep)
  moreover have "splitn sep (Suc 0) s = [a, b]" using s a by (simp add: splitn_one_two)
  ultimately show ?thesis by simp
qed

lemma case_pair_list:
  "(case xs of [a, b] \<Rightarrow> f a b | _ \<Rightarrow> g) =
   (if length xs = 2 then f (xs ! 0) (xs ! 1) else g)"
  by (auto split: list.splits)

lemma parse_at:
  assumes "CHR ''@'' \<notin> set repo_part"
  shows "parse_github_path e (''gh:'' @ repo_part @ ''@'' @ rest) w =
    (if length (filter (\<lambda>c. c = CHR ''/'') repo_part) = 1 \<and> CHR ''/'' \<in> set rest
     then (Inr (takeWhile (\<lambda>c. c \<noteq> CHR ''/'') repo_part,
                drop 1 (dropWhile (\<lambda>c. c \<noteq> CHR ''/'') repo_part),
                takeWhile (\<lambda>c. c \<noteq> CHR ''/'') rest,
                drop 1 (dropWhile (\<lambda>c. c \<noteq> CHR ''/'') rest)), w)
     else (Inl (format_error (''gh:'' @ repo_part @ ''@'' @ rest) ''gh:owner/repo@ref/filepath''), w))"
proof -
  have at: "splitn (CHR ''@'') (Suc 0) (repo_part @ CHR ''@'' # rest) = [repo_part, rest]"
    using assms by (simp add: splitn_one_two)
  show ?thesis
  proof (cases "length (filter (\<lambda>c. c = CHR ''/'') repo_part) = 1")
    case one: True
    show ?thesis
    proof (cases "CHR ''/'' \<in> set rest")
      case True
      with one at show ?thesis
        by (simp add: parse_github_path_def split_two_parts splitn_one_parts)
    next
      case False
      with one at show ?thesis
        by (simp add: parse_github_path_def split_two_parts splitn_none)
    qed
  next
    case False
    then have "length (split (CHR ''/'') repo_part) \<noteq> 2" by (simp add: length_split)
    then have "(case split (CHR ''/'') repo_part of [a, b] \<Rightarrow> f a b | _ \<Rightarrow> g) = g" for f and g :: "(exn + string \<times> string \<times> string \<times> string) \<times> world"
      by (simp add: case_pair_list)
    with False at show ?thesis
      by (simp add: parse_github_path_def)
  qed
qed

section \<open>The reference parser\<close>

lemma parse_at_rel:
  assumes "CHR ''@'' \<notin> set repo_part"
  shows "(parse_github_path e (''gh:'' @ repo_part @ ''@'' @ rest) w
            = (Inr (owner, repo, ref, filepath), w')) =
         (repo_part = owner @ ''/'' @ repo \<and> CHR ''/'' \<notin> set owner \<and> CHR ''/'' \<notin> set repo \<and>
          rest = ref @ ''/'' @ filepath \<and> CHR ''/'' \<notin> set ref \<and> w' = w)"
proof -
  have at: "splitn (CHR ''@'') (Suc 0) (repo_part @ CHR ''@'' # rest) = [repo_part, rest]"
    using assms by (simp add: splitn_one_two)
  have "(parse_github_path e (''gh:'' @ repo_part @ ''@'' @ rest) w
            = (Inr (owner, repo, ref, filepath), w')) =
        (split (CHR ''/'') repo_part = [owner, repo] \<and>
         splitn (CHR ''/'') (Suc 0) rest = [ref, filepath] \<and> w' = w)"
    using at by (auto simp: parse_github_path_def Let_def split: list.splits)
  then show ?thesis by (auto simp: split_two splitn_one_two)
qed

text \<open>
  C1 (as amended). For an input \<open>gh:<repo_part>@<rest>\<close>, cut at its first \<open>@\<close>:
  \<open>parse_github_path\<close> returns \<open>(owner, repo, ref, filepath)\<close> exactly when \<open>repo_part\<close>
  is \<open>owner/repo\<close> with no further slash and \<open>rest\<close> is \<open>ref/filepath\<close>, \<open>ref\<close> being
  what stands before the first slash of \<open>rest\<close> (\<open>filepath\<close> may hold more slashes); the
  world is left as it was. It fails exactly when \<open>repo_part\<close> does not hold one slash or
  \<open>rest\<close> holds none, and then with the \<open>ValueError\<close> that names the expected format.
  Empty fields are accepted.
\<close>

theorem parse_github_path_explicit_ref:
  assumes "CHR ''@'' \<notin> set repo_part"
  shows "((parse_github_path e (''gh:'' @ repo_part @ ''@'' @ rest) w
             = (Inr (owner, repo, ref, filepath), w')) =
          (repo_part = owner @ ''/'' @ repo \<and> CHR ''/'' \<notin> set owner \<and> CHR ''/'' \<notin> set repo \<and>
           rest = ref @ ''/'' @ filepath \<and> CHR ''/'' \<notin> set ref \<and> w' = w))
       \<and> ((\<exists>ex. fst (parse_github_path e (''gh:'' @ repo_part @ ''@'' @ rest) w) = Inl ex) =
          (length (filter (\<lambda>c. c = CHR ''/'') repo_part) \<noteq> 1 \<or> CHR ''/'' \<notin> set rest))
       \<and> (\<forall>ex. fst (parse_github_path e (''gh:'' @ repo_part @ ''@'' @ rest) w) = Inl ex \<longrightarrow>
             ex = format_error (''gh:'' @ repo_part @ ''@'' @ rest) ''gh:owner/repo@ref/filepath'')"
proof (intro conjI)
  show "(parse_github_path e (''gh:'' @ repo_part @ ''@'' @ rest) w
             = (Inr (owner, repo, ref, filepath), w')) =
          (repo_part = owner @ ''/'' @ repo \<and> CHR ''/'' \<notin> set owner \<and> CHR ''/'' \<notin> set repo \<and>
           rest = ref @ ''/'' @ filepath \<and> CHR ''/'' \<notin> set ref \<and> w' = w)"
    using assms by (rule parse_at_rel)
  show "(\<exists>ex. fst (parse_github_path e (''gh:'' @ repo_part @ ''@'' @ rest) w) = Inl ex) =
          (length (filter (\<lambda>c. c = CHR ''/'') repo_part) \<noteq> 1 \<or> CHR ''/'' \<notin> set rest)"
    unfolding parse_at [OF assms] by auto
  show "\<forall>ex. fst (parse_github_path e (''gh:'' @ repo_part @ ''@'' @ rest) w) = Inl ex \<longrightarrow>
             ex = format_error (''gh:'' @ repo_part @ ''@'' @ rest) ''gh:owner/repo@ref/filepath''"
    unfolding parse_at [OF assms] by auto
qed

theorem parse_github_path_explicit_ref_witness:
  "CHR ''@'' \<notin> set ''easyscience/peasy''
   \<and> parse_github_path offline ''gh:easyscience/peasy@master/docs/project.yaml'' w0
       = (Inr (''easyscience'', ''peasy'', ''master'', ''docs/project.yaml''), w0)
   \<and> (\<exists>ex. fst (parse_github_path offline ''gh:easyscience/peasy@master'' w0) = Inl ex)"
  using parse_github_path_explicit_ref [of "''easyscience/peasy''" offline "''master/docs/project.yaml''" w0
          "''easyscience''" "''peasy''" "''master''" "''docs/project.yaml''" w0]
        parse_github_path_explicit_ref [of "''easyscience/peasy''" offline "''master''" w0]
  by simp

text \<open>
  C1 as stated fails: the part after \<open>@\<close> of \<open>gh:a/b@/x\<close> splits on its first slash into
  an empty reference and \<open>x\<close>, and the parser succeeds with the empty reference.
\<close>

theorem parse_accepts_empty_ref:
  "parse_github_path offline ''gh:a/b@/x'' w0 = (Inr (''a'', ''b'', [], ''x''), w0)"
  by (simp add: parse_github_path_def splitn_def split_def)

lemma prefix_gh: "prefix ''gh:'' path \<Longrightarrow> path = ''gh:'' @ drop 3 path"
  by (auto simp: prefix_def)

lemma parse_no_prefix:
  "\<not> prefix ''gh:'' path \<Longrightarrow>
   parse_github_path e path w = (Inl (format_error path ''gh:owner/repo@ref/filepath''), w)"
  by (simp add: parse_github_path_def)

lemma parse_plain_rel:
  assumes "prefix ''gh:'' path" and "CHR ''@'' \<notin> set (drop 3 path)"
  shows "(parse_github_path e path w = (Inr (owner, repo, ref, filepath), w')) =
         (drop 3 path = owner @ ''/'' @ repo @ ''/'' @ filepath \<and>
          CHR ''/'' \<notin> set owner \<and> CHR ''/'' \<notin> set repo \<and>
          get_stable_ref e owner repo w = (ref, w'))"
proof -
  have "(parse_github_path e path w = (Inr (owner, repo, ref, filepath), w')) =
        (splitn (CHR ''/'') 2 (drop 3 path) = [owner, repo, filepath] \<and>
         get_stable_ref e owner repo w = (ref, w'))"
    using assms
    by (auto simp: parse_github_path_def Let_def split: list.splits prod.splits)
  then show ?thesis by (simp add: splitn_two_three)
qed

lemma parse_ok_forms:
  assumes "parse_github_path e path w = (Inr (owner, repo, ref, filepath), w')"
  shows "CHR ''/'' \<notin> set owner \<and> CHR ''/'' \<notin> set repo \<and>
         (path = ''gh:'' @ owner @ ''/'' @ repo @ ''@'' @ ref @ ''/'' @ filepath \<and>
            CHR ''@'' \<notin> set owner \<and> CHR ''@'' \<notin> set repo \<and> CHR ''/'' \<notin> set ref \<and> w' = w
          \<or> path = ''gh:'' @ owner @ ''/'' @ repo @ ''/'' @ filepath \<and>
            CHR ''@'' \<notin> set path \<and> get_stable_ref e owner repo w = (ref, w'))"
proof -
  have pre: "prefix ''gh:'' path"
    using assms by (cases "prefix ''gh:'' path") (simp_all add: parse_no_prefix)
  then have path: "path = ''gh:'' @ drop 3 path" by (rule prefix_gh)
  show ?thesis
  proof (cases "CHR ''@'' \<in> set (drop 3 path)")
    case True
    then obtain repo_part rest
      where d: "drop 3 path = repo_part @ CHR ''@'' # rest" and r: "CHR ''@'' \<notin> set repo_part"
      by (meson split_list_first)
    have "parse_github_path e (''gh:'' @ repo_part @ ''@'' @ rest) w
            = (Inr (owner, repo, ref, filepath), w')"
      using assms path d by simp
    then have "repo_part = owner @ ''/'' @ repo \<and> CHR ''/'' \<notin> set owner \<and> CHR ''/'' \<notin> set repo \<and>
          rest = ref @ ''/'' @ filepath \<and> CHR ''/'' \<notin> set ref \<and> w' = w"
      using parse_at_rel [OF r] by blast
    with path d r show ?thesis by auto
  next
    case False
    then have "drop 3 path = owner @ ''/'' @ repo @ ''/'' @ filepath \<and>
          CHR ''/'' \<notin> set owner \<and> CHR ''/'' \<notin> set repo \<and>
          get_stable_ref e owner repo w = (ref, w')"
      using parse_plain_rel [OF pre False] assms by blast
    moreover have "set path = set ''gh:'' \<union> set (drop 3 path)"
      using path by (metis set_append)
    then have "CHR ''@'' \<notin> set path" using False by simp
    ultimately show ?thesis using path by auto
  qed
qed

section \<open>The stable-reference resolver\<close>

text \<open>
  C5. For every owner and repository, \<open>get_stable_ref\<close> returns the tag name of the
  release when the lookup answers with status 200 and a JSON object that holds
  \<open>tag_name\<close>. It returns \<open>master\<close> when the request raises (no connection, timeout), when
  the status is not 200, when the body is not JSON, and when the object holds no
  \<open>tag_name\<close>: whatever the body of the \<open>try\<close> raises, the result is \<open>master\<close>. The
  result is a plain string in every case, and the only effect is the one request: nothing
  is printed and nothing is raised.
\<close>

theorem get_stable_ref_total:
  "(http_get e (length (events w)) (releases_url owner repo) = Response 200 (Some obj) \<and>
      obj ''tag_name'' = Some tag \<longrightarrow> fst (get_stable_ref e owner repo w) = tag)
   \<and> (http_get e (length (events w)) (releases_url owner repo) = Raises ex \<longrightarrow>
        fst (get_stable_ref e owner repo w) = ''master'')
   \<and> (http_get e (length (events w)) (releases_url owner repo) = Response status body \<and>
        status \<noteq> 200 \<longrightarrow> fst (get_stable_ref e owner repo w) = ''master'')
   \<and> (http_get e (length (events w)) (releases_url owner repo) = Response 200 None \<longrightarrow>
        fst (get_stable_ref e owner repo w) = ''master'')
   \<and> (http_get e (length (events w)) (releases_url owner repo) = Response 200 (Some obj) \<and>
        obj ''tag_name'' = None \<longrightarrow> fst (get_stable_ref e owner repo w) = ''master'')
   \<and> (release_lookup (http_get e (length (events w)) (releases_url owner repo)) = Inl ex \<longrightarrow>
        fst (get_stable_ref e owner repo w) = ''master'')
   \<and> snd (get_stable_ref e owner repo w) = emit (HttpGet (releases_url owner repo)) w"
  by (auto simp: get_stable_ref_def Let_def split: sum.splits option.splits)

theorem get_stable_ref_total_witness:
  "fst (get_stable_ref online ''acme'' ''widgets'' w0) = ''v1.2.0''
   \<and> fst (get_stable_ref offline ''acme'' ''widgets'' w0) = ''master''
   \<and> fst (get_stable_ref (online\<lparr>http_get := \<lambda>n url. Response 404 None\<rparr>)
             ''acme'' ''widgets'' w0) = ''master''
   \<and> fst (get_stable_ref (online\<lparr>http_get := \<lambda>n url. Response 200 None\<rparr>)
             ''acme'' ''widgets'' w0) = ''master''
   \<and> fst (get_stable_ref (online\<lparr>http_get := \<lambda>n url. Response 200 (Some Map.empty)\<rparr>)
             ''acme'' ''widgets'' w0) = ''master''
   \<and> events (snd (get_stable_ref offline ''acme'' ''widgets'' w0))
       = [HttpGet ''https://api.github.com/repos/acme/widgets/releases/latest'']"
  using get_stable_ref_total [of online w0 "''acme''" "''widgets''"
            "[''tag_name'' \<mapsto> ''v1.2.0'']" "''v1.2.0''"]
        get_stable_ref_total [of offline w0 "''acme''" "''widgets''" _ _ RequestException]
        get_stable_ref_total [of "online\<lparr>http_get := \<lambda>n url. Response 404 None\<rparr>" w0
            "''acme''" "''widgets''" _ _ _ 404 None]
        get_stable_ref_total [of "online\<lparr>http_get := \<lambda>n url. Response 200 None\<rparr>" w0
            "''acme''" "''widgets''"]
        get_stable_ref_total [of "online\<lparr>http_get := \<lambda>n url. Response 200 (Some Map.empty)\<rparr>" w0
            "''acme''" "''widgets''" Map.empty]
  by (simp add: online_def offline_def w0_def emit_def releases_url_def)

section \<open>The cache policy\<close>

inductive_simps matches_Void [simp]: "matches Void u"
inductive_simps matches_Eps [simp]: "matches Eps u"
inductive_simps matches_Chr [simp]: "matches (Chr a) u"
inductive_simps matches_Digit [simp]: "matches Digit u"
inductive_simps matches_Alt [simp]: "matches (Alt r s) u"
inductive_simps matches_Cat: "matches (Cat r s) u"

lemma matches_nil_nullable: "matches r u \<Longrightarrow> u = [] \<Longrightarrow> nullable r"
  by (induction rule: matches.induct) auto

lemma nullable_matches_nil: "nullable r \<Longrightarrow> matches r []"
proof (induction r)
  case (Cat r s)
  then have "matches r []" and "matches s []" by simp_all
  then have "matches (Cat r s) ([] @ [])" by (rule m_cat)
  then show ?case by simp
qed (auto intro: matches.intros)

lemma nullable_iff: "nullable r = matches r []"
  using matches_nil_nullable nullable_matches_nil by blast

lemma matches_cons_deriv: "matches r x \<Longrightarrow> x = c # u \<Longrightarrow> matches (deriv c r) u"
proof (induction arbitrary: u rule: matches.induct)
  case (m_cat r x s y)
  show ?case
  proof (cases x)
    case Nil
    with m_cat show ?thesis by (auto simp: nullable_iff)
  next
    case (Cons a x')
    with m_cat.prems have a: "a = c" and u: "u = x' @ y" by simp_all
    from m_cat.IH(1) [of x'] Cons a have "matches (deriv c r) x'" by simp
    then have "matches (Cat (deriv c r) s) (x' @ y)" using m_cat.hyps(2) by (rule matches.m_cat)
    with u show ?thesis by auto
  qed
next
  case (m_again r x y)
  show ?case
  proof (cases x)
    case Nil
    with m_again show ?thesis by simp
  next
    case (Cons a x')
    with m_again.prems have a: "a = c" and u: "u = x' @ y" by simp_all
    from m_again.IH(1) [of x'] Cons a have "matches (deriv c r) x'" by simp
    then have "matches (Cat (deriv c r) (Star r)) (x' @ y)"
      using m_again.hyps(2) by (rule matches.m_cat)
    with u show ?thesis by simp
  qed
qed auto

lemma matches_deriv_cons: "matches (deriv c r) u \<Longrightarrow> matches r (c # u)"
proof (induction r arbitrary: u)
  case (Cat r s)
  have step: "matches (Cat r s) (c # u)" if "matches (Cat (deriv c r) s) u"
  proof -
    from that obtain x y where "u = x @ y" "matches (deriv c r) x" "matches s y"
      by (auto simp: matches_Cat)
    with Cat.IH(1) have "matches r (c # x)" by simp
    then have "matches (Cat r s) ((c # x) @ y)" using \<open>matches s y\<close> by (rule m_cat)
    with \<open>u = x @ y\<close> show ?thesis by simp
  qed
  show ?case
  proof (cases "nullable r")
    case True
    with Cat.prems have "matches (Cat (deriv c r) s) u \<or> matches (deriv c s) u" by simp
    then show ?thesis
    proof
      assume "matches (Cat (deriv c r) s) u" then show ?thesis by (rule step)
    next
      assume "matches (deriv c s) u"
      with Cat.IH(2) have "matches s (c # u)" by simp
      moreover from True have "matches r []" by (simp add: nullable_iff)
      ultimately have "matches (Cat r s) ([] @ c # u)" by (rule m_cat [rotated])
      then show ?thesis by simp
    qed
  next
    case False
    with Cat.prems show ?thesis by (simp add: step)
  qed
next
  case (Star r)
  then obtain x y where "u = x @ y" "matches (deriv c r) x" "matches (Star r) y"
    by (auto simp: matches_Cat)
  with Star.IH have "matches r (c # x)" by simp
  then have "matches (Star r) ((c # x) @ y)" using \<open>matches (Star r) y\<close> by (rule m_again)
  with \<open>u = x @ y\<close> show ?case by simp
qed (auto split: if_splits intro: matches.intros)

lemma deriv_iff: "matches (deriv c r) u = matches r (c # u)"
  using matches_cons_deriv matches_deriv_cons by blast

lemma re_match_iff: "re_match r s = (\<exists>u v. s = u @ v \<and> matches r u)"
proof (induction s arbitrary: r)
  case Nil
  then show ?case by (simp add: nullable_iff)
next
  case (Cons c cs)
  have "(\<exists>u v. c # cs = u @ v \<and> matches r u) =
        (matches r [] \<or> (\<exists>u v. cs = u @ v \<and> matches r (c # u)))"
    by (auto simp: Cons_eq_append_conv)
  with Cons show ?case by (simp add: nullable_iff deriv_iff)
qed


lemma star_digit_all: "matches r u \<Longrightarrow> r = Star Digit \<Longrightarrow> list_all is_digit u"
  by (induction rule: matches.induct) auto

lemma all_digit_star: "list_all is_digit u \<Longrightarrow> matches (Star Digit) u"
proof (induction u)
  case Nil
  show ?case by (rule m_done)
next
  case (Cons c u)
  then have "matches Digit [c]" and "matches (Star Digit) u" by simp_all
  then have "matches (Star Digit) ([c] @ u)" by (rule m_again)
  then show ?case by simp
qed

lemma matches_star_digit: "matches (Star Digit) u = list_all is_digit u"
  using star_digit_all all_digit_star by blast

lemma matches_plus_digit: "matches (Plus Digit) u = (u \<noteq> [] \<and> list_all is_digit u)"
proof
  assume "matches (Plus Digit) u"
  then obtain x y where "u = x @ y" "matches Digit x" "matches (Star Digit) y"
    unfolding Plus_def by (subst (asm) matches_Cat) blast
  then show "u \<noteq> [] \<and> list_all is_digit u" by (auto simp: matches_star_digit)
next
  assume "u \<noteq> [] \<and> list_all is_digit u"
  then obtain c cs where u: "u = c # cs" and "is_digit c" and "list_all is_digit cs"
    by (cases u) auto
  then have "matches Digit [c]" and "matches (Star Digit) cs"
    by (simp_all add: matches_star_digit)
  then have "matches (Cat Digit (Star Digit)) ([c] @ cs)" by (rule m_cat)
  then show "matches (Plus Digit) u" using u by (simp add: Plus_def)
qed

lemma matches_opt: "matches (Opt r) u = (matches r u \<or> u = [])"
  by (auto simp: Opt_def)


lemma cat_parts:
  "matches (Cat r s) u \<Longrightarrow> \<exists>x y. u = x @ y \<and> matches r x \<and> matches s y"
  by (simp add: matches_Cat)

lemma release_tag_parts:
  assumes "matches release_tag_re u"
  shows "\<exists>v major minor. u = v @ major @ ''.'' @ minor \<and> (v = [] \<or> v = ''v'') \<and>
      major \<noteq> [] \<and> list_all is_digit major \<and> minor \<noteq> [] \<and> list_all is_digit minor"
proof -
  from assms have "matches (Cat (Opt (Chr (CHR ''v'')))
      (Cat (Plus Digit) (Cat (Chr (CHR ''.'')) (Plus Digit)))) u"
    by (simp only: release_tag_re_def)
  from cat_parts [OF this] obtain v y where 1: "u = v @ y" "matches (Opt (Chr (CHR ''v''))) v"
      "matches (Cat (Plus Digit) (Cat (Chr (CHR ''.'')) (Plus Digit))) y"
    by blast
  from cat_parts [OF 1(3)] obtain major z where 2: "y = major @ z" "matches (Plus Digit) major"
      "matches (Cat (Chr (CHR ''.'')) (Plus Digit)) z"
    by blast
  from cat_parts [OF 2(3)] obtain d minor where 3: "z = d @ minor" "matches (Chr (CHR ''.'')) d"
      "matches (Plus Digit) minor"
    by blast
  from 1(2) have v: "v = [] \<or> v = ''v''" by (auto simp: matches_opt)
  from 3(2) have d: "d = ''.''" by simp
  from 2(2) have ma: "major \<noteq> [] \<and> list_all is_digit major" by (simp add: matches_plus_digit)
  from 3(3) have mi: "minor \<noteq> [] \<and> list_all is_digit minor" by (simp add: matches_plus_digit)
  have u: "u = v @ major @ ''.'' @ minor" by (simp only: 1(1) 2(1) 3(1) d)
  show ?thesis
    by (rule exI [of _ v], rule exI [of _ major], rule exI [of _ minor]) (use u v ma mi in simp)
qed

lemma release_tag_build:
  assumes v: "v = [] \<or> v = ''v''"
    and ma: "major \<noteq> [] \<and> list_all is_digit major"
    and mi: "minor \<noteq> [] \<and> list_all is_digit minor"
  shows "matches release_tag_re (v @ major @ ''.'' @ minor)"
proof -
  from v have a: "matches (Opt (Chr (CHR ''v''))) v" by (auto simp: matches_opt)
  from ma have b: "matches (Plus Digit) major" by (simp add: matches_plus_digit)
  from mi have c: "matches (Plus Digit) minor" by (simp add: matches_plus_digit)
  have "matches (Chr (CHR ''.'')) ''.''" by (rule m_chr)
  then have "matches (Cat (Chr (CHR ''.'')) (Plus Digit)) (''.'' @ minor)"
    using c by (rule m_cat)
  with b have "matches (Cat (Plus Digit) (Cat (Chr (CHR ''.'')) (Plus Digit)))
                 (major @ ''.'' @ minor)"
    by (rule m_cat)
  with a show ?thesis
    unfolding release_tag_re_def by (rule m_cat)
qed

text \<open>
  C2. A version token is classified as immutable exactly when it starts with an optional
  letter \<open>v\<close>, one or more digits, a dot, and one or more digits. In particular
  \<open>v1.2\<close>, \<open>1.0.0\<close> and \<open>v2.3.4\<close> are immutable, and \<open>master\<close>, \<open>dev\<close>,
  \<open>feature-x\<close> and \<open>1\<close> are mutable.
\<close>

theorem is_release_tag_semver_like:
  "(is_release_tag t = semver_like t)
   \<and> is_release_tag ''v1.2'' \<and> is_release_tag ''1.0.0'' \<and> is_release_tag ''v2.3.4''
   \<and> \<not> is_release_tag ''master'' \<and> \<not> is_release_tag ''dev''
   \<and> \<not> is_release_tag ''feature-x'' \<and> \<not> is_release_tag ''1''"
proof (intro conjI)
  show "is_release_tag t = semver_like t"
  proof
    assume "is_release_tag t"
    then obtain u w where t: "t = u @ w" and m: "matches release_tag_re u"
      unfolding is_release_tag_def re_match_iff by blast
    from release_tag_parts [OF m] obtain v major minor
      where u: "u = v @ major @ ''.'' @ minor" and v: "v = [] \<or> v = ''v''"
        and ma: "major \<noteq> []" "list_all is_digit major"
        and mi: "minor \<noteq> []" "list_all is_digit minor"
      by blast
    have "t = v @ major @ ''.'' @ minor @ w" by (simp only: t u append_assoc)
    with v ma mi show "semver_like t" unfolding semver_like_def by blast
  next
    assume "semver_like t"
    then obtain v major minor rest
      where t: "t = v @ major @ ''.'' @ minor @ rest" and v: "v = [] \<or> v = ''v''"
        and ma: "major \<noteq> [] \<and> list_all is_digit major"
        and mi: "minor \<noteq> [] \<and> list_all is_digit minor"
      unfolding semver_like_def by blast
    have "matches release_tag_re (v @ major @ ''.'' @ minor)"
      using v ma mi by (rule release_tag_build)
    moreover have "t = (v @ major @ ''.'' @ minor) @ rest" by (simp only: t append_assoc)
    ultimately show "is_release_tag t"
      unfolding is_release_tag_def re_match_iff by blast
  qed
qed (simp_all add: is_release_tag_def release_tag_re_def Opt_def Plus_def is_digit_def)

section \<open>The fetcher\<close>

lemma get_stable_ref_world:
  "snd (get_stable_ref e owner repo w) = emit (HttpGet (releases_url owner repo)) w"
  by (auto simp: get_stable_ref_def Let_def split: sum.splits option.splits)

lemma parse_ok_files:
  assumes "parse_github_path e path w = (Inr (owner, repo, ref, filepath), w1)"
  shows "files w1 = files w"
proof -
  from parse_ok_forms [OF assms]
  have "w1 = w \<or> get_stable_ref e owner repo w = (ref, w1)" by blast
  then show ?thesis
  proof
    assume "w1 = w" then show ?thesis by simp
  next
    assume "get_stable_ref e owner repo w = (ref, w1)"
    then have "w1 = emit (HttpGet (releases_url owner repo)) w"
      using get_stable_ref_world [of e owner repo w] by simp
    then show ?thesis by (simp add: emit_def)
  qed
qed

lemma fetch_unfold:
  assumes "parse_github_path e path w = (Inr (owner, repo, ref, filepath), w1)"
  shows "fetch_github_file e path cache_dir w =
    retrieve e (raw_url owner repo ref filepath) cache_dir (cache_filename ref filepath)
      (if \<not> is_release_tag ref \<and> exists w1 (joinpath e cache_dir (cache_filename ref filepath))
       then unlink (joinpath e cache_dir (cache_filename ref filepath))
              (emit (Print (MsgRefreshing filepath owner repo ref)) w1)
       else if is_release_tag ref \<and> exists w1 (joinpath e cache_dir (cache_filename ref filepath))
       then emit (Print (MsgUsingCached filepath owner repo ref)) w1
       else w1)"
  using assms by (simp add: fetch_github_file_def Let_def)

lemma retrieve_events:
  "events (snd (retrieve e url path fname w)) = events w @ [Retrieve url path fname]"
  by (simp add: retrieve_def emit_def split: prod.splits)

lemma retrieve_result:
  "fst (retrieve e url path fname w) = fst (pooch_retrieve e url path fname (files w))"
  by (simp add: retrieve_def split: prod.splits)

lemma retrieve_files:
  "files (snd (retrieve e url path fname w)) = snd (pooch_retrieve e url path fname (files w))"
  by (simp add: retrieve_def emit_def split: prod.splits)

lemma fetch_last_event:
  assumes "parse_github_path e path w = (Inr (owner, repo, ref, filepath), w1)"
  shows "last (events (snd (fetch_github_file e path cache_dir w)))
           = Retrieve (raw_url owner repo ref filepath) cache_dir (cache_filename ref filepath)"
  by (simp only: fetch_unfold [OF assms] retrieve_events) simp

text \<open>
  C3. When the reference is parsed, its version is classified as mutable and a file is at
  the cache path when \<open>fetch_github_file\<close> runs, the effects of \<open>fetch_github_file\<close> after
  parsing are, in this order: the message, the deletion of that file, the retrieval. The
  retrieval is handed the cache without the file, and its result is the result of
  \<open>fetch_github_file\<close>.
\<close>

theorem mutable_cache_file_is_deleted_first:
  assumes "parse_github_path e path w = (Inr (owner, repo, ref, filepath), w1)"
    and "\<not> is_release_tag ref"
    and "files w (joinpath e cache_dir (cache_filename ref filepath)) \<noteq> None"
  shows "events (snd (fetch_github_file e path cache_dir w)) =
           events w1 @ [Print (MsgRefreshing filepath owner repo ref),
                        Unlink (joinpath e cache_dir (cache_filename ref filepath)),
                        Retrieve (raw_url owner repo ref filepath) cache_dir
                          (cache_filename ref filepath)]
       \<and> fst (fetch_github_file e path cache_dir w) =
           fst (pooch_retrieve e (raw_url owner repo ref filepath) cache_dir
                  (cache_filename ref filepath)
                  ((files w)(joinpath e cache_dir (cache_filename ref filepath) := None)))
       \<and> files (snd (fetch_github_file e path cache_dir w)) =
           snd (pooch_retrieve e (raw_url owner repo ref filepath) cache_dir
                  (cache_filename ref filepath)
                  ((files w)(joinpath e cache_dir (cache_filename ref filepath) := None)))"
proof -
  have f: "files w1 = files w" using assms(1) by (rule parse_ok_files)
  with assms(3) have ex: "exists w1 (joinpath e cache_dir (cache_filename ref filepath))"
    by (simp add: exists_def)
  show ?thesis
    unfolding fetch_unfold [OF assms(1)] retrieve_events retrieve_result retrieve_files
    using assms(2) ex f by (simp add: unlink_def emit_def)
qed

theorem mutable_cache_file_is_deleted_first_witness:
  "parse_github_path online ''gh:easyscience/peasy@master/project.yaml'' cached
     = (Inr (''easyscience'', ''peasy'', ''master'', ''project.yaml''), cached)
   \<and> \<not> is_release_tag ''master''
   \<and> files cached ''/cache/master_project.yaml'' = Some ''old''
   \<and> events (snd (fetch_github_file online ''gh:easyscience/peasy@master/project.yaml''
                     ''/cache'' cached))
     = [Print (MsgRefreshing ''project.yaml'' ''easyscience'' ''peasy'' ''master''),
        Unlink ''/cache/master_project.yaml'',
        Retrieve ''https://raw.githubusercontent.com/easyscience/peasy/refs/heads/master/project.yaml''
          ''/cache'' ''master_project.yaml'']
   \<and> fst (fetch_github_file online ''gh:easyscience/peasy@master/project.yaml'' ''/cache'' cached)
     = Inr ''/cache/master_project.yaml''
   \<and> files (snd (fetch_github_file online ''gh:easyscience/peasy@master/project.yaml''
                    ''/cache'' cached)) ''/cache/master_project.yaml''
     = Some ''fresh''"
proof -
  have h1: "parse_github_path online ''gh:easyscience/peasy@master/project.yaml'' cached
     = (Inr (''easyscience'', ''peasy'', ''master'', ''project.yaml''), cached)"
    by (simp add: parse_github_path_def splitn_def split_def)
  have h2: "\<not> is_release_tag ''master''"
    by (simp add: is_release_tag_def release_tag_re_def Opt_def Plus_def is_digit_def)
  have h3: "files cached (joinpath online ''/cache'' (cache_filename ''master'' ''project.yaml''))
              \<noteq> None"
    by (simp add: cached_def online_def cache_filename_def replace_def)
  from mutable_cache_file_is_deleted_first [OF h1 h2 h3] show ?thesis
    using h1 h2
    by (simp add: cached_def online_def cache_filename_def replace_def raw_url_def)
qed

text \<open>
  C4. When the reference is parsed, its version is classified as immutable and a file is
  at the cache path, \<open>fetch_github_file\<close> deletes nothing: after parsing it prints the
  message and calls the retrieval, which is handed the cache as it was. When the retrieval
  reuses a file that is present, as the program expects of \<open>pooch.retrieve\<close>, the cache is
  left as it was, content included, and the path returned is the path of that file.
\<close>

theorem immutable_cache_file_is_kept:
  assumes "parse_github_path e path w = (Inr (owner, repo, ref, filepath), w1)"
    and "is_release_tag ref"
    and "files w (joinpath e cache_dir (cache_filename ref filepath)) \<noteq> None"
  shows "events (snd (fetch_github_file e path cache_dir w)) =
           events w1 @ [Print (MsgUsingCached filepath owner repo ref),
                        Retrieve (raw_url owner repo ref filepath) cache_dir
                          (cache_filename ref filepath)]
       \<and> fst (fetch_github_file e path cache_dir w) =
           fst (pooch_retrieve e (raw_url owner repo ref filepath) cache_dir
                  (cache_filename ref filepath) (files w))
       \<and> files (snd (fetch_github_file e path cache_dir w)) =
           snd (pooch_retrieve e (raw_url owner repo ref filepath) cache_dir
                  (cache_filename ref filepath) (files w))
       \<and> (reuses_cached e \<longrightarrow>
            fst (fetch_github_file e path cache_dir w) =
              Inr (joinpath e cache_dir (cache_filename ref filepath)) \<and>
            files (snd (fetch_github_file e path cache_dir w)) = files w)"
proof -
  have f: "files w1 = files w" using assms(1) by (rule parse_ok_files)
  with assms(3) have ex: "exists w1 (joinpath e cache_dir (cache_filename ref filepath))"
    by (simp add: exists_def)
  have r: "pooch_retrieve e (raw_url owner repo ref filepath) cache_dir
             (cache_filename ref filepath) (files w)
           = (Inr (joinpath e cache_dir (cache_filename ref filepath)), files w)"
    if "reuses_cached e"
    using that assms(3) unfolding reuses_cached_def by blast
  show ?thesis
    unfolding fetch_unfold [OF assms(1)] retrieve_events retrieve_result retrieve_files
    using assms(2) ex f r by (simp add: emit_def)
qed

theorem immutable_cache_file_is_kept_witness:
  "parse_github_path online ''gh:easyscience/peasy@v2.0.0/project.yaml'' cached
     = (Inr (''easyscience'', ''peasy'', ''v2.0.0'', ''project.yaml''), cached)
   \<and> is_release_tag ''v2.0.0''
   \<and> files cached ''/cache/v2.0.0_project.yaml'' = Some ''old''
   \<and> reuses_cached online
   \<and> events (snd (fetch_github_file online ''gh:easyscience/peasy@v2.0.0/project.yaml''
                     ''/cache'' cached))
     = [Print (MsgUsingCached ''project.yaml'' ''easyscience'' ''peasy'' ''v2.0.0''),
        Retrieve ''https://raw.githubusercontent.com/easyscience/peasy/refs/heads/v2.0.0/project.yaml''
          ''/cache'' ''v2.0.0_project.yaml'']
   \<and> fst (fetch_github_file online ''gh:easyscience/peasy@v2.0.0/project.yaml'' ''/cache'' cached)
     = Inr ''/cache/v2.0.0_project.yaml''
   \<and> files (snd (fetch_github_file online ''gh:easyscience/peasy@v2.0.0/project.yaml''
                    ''/cache'' cached))
     = files cached"
proof -
  have h1: "parse_github_path online ''gh:easyscience/peasy@v2.0.0/project.yaml'' cached
     = (Inr (''easyscience'', ''peasy'', ''v2.0.0'', ''project.yaml''), cached)"
    by (simp add: parse_github_path_def splitn_def split_def)
  have h2: "is_release_tag ''v2.0.0''"
    by (simp add: is_release_tag_def release_tag_re_def Opt_def Plus_def is_digit_def)
  have h3: "files cached (joinpath online ''/cache'' (cache_filename ''v2.0.0'' ''project.yaml''))
              \<noteq> None"
    by (simp add: cached_def online_def cache_filename_def replace_def)
  have h4: "reuses_cached online"
    by (simp add: reuses_cached_def online_def)
  from immutable_cache_file_is_kept [OF h1 h2 h3] show ?thesis
    using h1 h2 h4
    by (simp add: cached_def online_def cache_filename_def replace_def raw_url_def)
qed

lemma fetch_project_data_event:
  "events (snd (fetch_project_data e repo branch filepath cache_dir w)) ! length (events w)
     = Retrieve (''https://raw.githubusercontent.com/'' @ repo @ ''/refs/heads/'' @ branch
                   @ ''/'' @ filepath)
         cache_dir (replace (CHR ''/'') (CHR ''_'') filepath)"
  by (simp add: fetch_project_data_def retrieve_def emit_def Let_def nth_append
           split: prod.splits sum.splits)

lemma replace_no_old: "old \<noteq> new \<Longrightarrow> old \<notin> set (replace old new s)"
  by (auto simp: replace_def)

lemma parse_plain_master:
  assumes "\<forall>tag. release_lookup (http_get e (length (events w)) (releases_url ''acme'' ''widgets''))
             \<noteq> Inr (Some tag)"
  shows "parse_github_path e ''gh:acme/widgets/config.yaml'' w
           = (Inr (''acme'', ''widgets'', ''master'', ''config.yaml''),
              emit (HttpGet (releases_url ''acme'' ''widgets'')) w)"
proof -
  have "get_stable_ref e ''acme'' ''widgets'' w
          = (''master'', emit (HttpGet (releases_url ''acme'' ''widgets'')) w)"
    using assms by (auto simp: get_stable_ref_def Let_def split: sum.splits option.splits)
  then show ?thesis
    by (simp add: parse_github_path_def splitn_def)
qed

text \<open>
  C10. For every parsed reference, whether its version is classified as a release tag or
  not, the URL that \<open>fetch_github_file\<close> hands to the retrieval holds the version in the
  branch segment \<open>refs/heads/<ref>\<close>; the URL of \<open>fetch_project_data\<close> holds its
  branch in the same segment. No URL is built with a tag path.
\<close>

theorem download_url_uses_branch_path:
  "(parse_github_path e path w = (Inr (owner, repo, ref, filepath), w1) \<longrightarrow>
      (\<exists>fname. last (events (snd (fetch_github_file e path cache_dir w)))
         = Retrieve (''https://raw.githubusercontent.com/'' @ owner @ ''/'' @ repo
                       @ ''/refs/heads/'' @ ref @ ''/'' @ filepath) cache_dir fname))
   \<and> (\<exists>fname. events (snd (fetch_project_data e repo' branch filepath' cache_dir w))
                  ! length (events w)
         = Retrieve (''https://raw.githubusercontent.com/'' @ repo' @ ''/refs/heads/'' @ branch
                       @ ''/'' @ filepath') cache_dir fname)"
proof (intro conjI impI)
  assume "parse_github_path e path w = (Inr (owner, repo, ref, filepath), w1)"
  then have "last (events (snd (fetch_github_file e path cache_dir w)))
           = Retrieve (raw_url owner repo ref filepath) cache_dir (cache_filename ref filepath)"
    by (rule fetch_last_event)
  then show "\<exists>fname. last (events (snd (fetch_github_file e path cache_dir w)))
         = Retrieve (''https://raw.githubusercontent.com/'' @ owner @ ''/'' @ repo
                       @ ''/refs/heads/'' @ ref @ ''/'' @ filepath) cache_dir fname"
    by (simp add: raw_url_def)
next
  show "\<exists>fname. events (snd (fetch_project_data e repo' branch filepath' cache_dir w))
                  ! length (events w)
         = Retrieve (''https://raw.githubusercontent.com/'' @ repo' @ ''/refs/heads/'' @ branch
                       @ ''/'' @ filepath') cache_dir fname"
    using fetch_project_data_event [of e repo' branch filepath' cache_dir w] by blast
qed

theorem download_url_uses_branch_path_witness:
  "parse_github_path online ''gh:easyscience/peasy@v2.0.0/project.yaml'' cached
     = (Inr (''easyscience'', ''peasy'', ''v2.0.0'', ''project.yaml''), cached)
   \<and> is_release_tag ''v2.0.0''
   \<and> (\<exists>fname. last (events (snd (fetch_github_file online
                 ''gh:easyscience/peasy@v2.0.0/project.yaml'' ''/cache'' cached)))
         = Retrieve ''https://raw.githubusercontent.com/easyscience/peasy/refs/heads/v2.0.0/project.yaml''
             ''/cache'' fname)"
proof -
  have h1: "parse_github_path online ''gh:easyscience/peasy@v2.0.0/project.yaml'' cached
     = (Inr (''easyscience'', ''peasy'', ''v2.0.0'', ''project.yaml''), cached)"
    by (simp add: parse_github_path_def splitn_def split_def)
  have h2: "is_release_tag ''v2.0.0''"
    by (simp add: is_release_tag_def release_tag_re_def Opt_def Plus_def is_digit_def)
  from download_url_uses_branch_path [of online "''gh:easyscience/peasy@v2.0.0/project.yaml''"
      cached "''easyscience''" "''peasy''" "''v2.0.0''" "''project.yaml''" cached "''/cache''"]
  show ?thesis using h1 h2 by simp
qed

text \<open>
  C6 (as amended). In \<open>copier_wrapper.py\<close> the cache filename is a function of the
  resolved version and the file path: the version, an underscore, and the file path with
  every slash replaced by an underscore (no slash is left, the length is kept). For a
  fixed file path, two versions give the same cache filename only when they are the same
  version. For \<open>gh:acme/widgets/config.yaml\<close>, when the release lookup gives no tag, the
  cache filename is \<open>master_config.yaml\<close>. In \<open>copier_update.py\<close> the cache filename of
  \<open>fetch_project_data\<close> is the flattened file path alone, whatever the branch.
\<close>

theorem cache_filename_by_version:
  "(parse_github_path e path w = (Inr (owner, repo, ref, filepath), w1) \<longrightarrow>
      (\<exists>url. last (events (snd (fetch_github_file e path cache_dir w)))
         = Retrieve url cache_dir (ref @ ''_'' @ replace (CHR ''/'') (CHR ''_'') filepath)))
   \<and> CHR ''/'' \<notin> set (replace (CHR ''/'') (CHR ''_'') filepath)
   \<and> length (replace (CHR ''/'') (CHR ''_'') filepath) = length filepath
   \<and> ((cache_filename ref1 filepath = cache_filename ref2 filepath) = (ref1 = ref2))
   \<and> ((\<forall>tag. release_lookup (http_get e (length (events w)) (releases_url ''acme'' ''widgets''))
                \<noteq> Inr (Some tag)) \<longrightarrow>
        (\<exists>url. last (events (snd (fetch_github_file e ''gh:acme/widgets/config.yaml'' cache_dir w)))
           = Retrieve url cache_dir ''master_config.yaml''))
   \<and> (\<exists>url. events (snd (fetch_project_data e repo' branch filepath cache_dir w))
                ! length (events w)
         = Retrieve url cache_dir (replace (CHR ''/'') (CHR ''_'') filepath))"
proof (intro conjI impI)
  assume "parse_github_path e path w = (Inr (owner, repo, ref, filepath), w1)"
  then have "last (events (snd (fetch_github_file e path cache_dir w)))
           = Retrieve (raw_url owner repo ref filepath) cache_dir (cache_filename ref filepath)"
    by (rule fetch_last_event)
  then show "\<exists>url. last (events (snd (fetch_github_file e path cache_dir w)))
         = Retrieve url cache_dir (ref @ ''_'' @ replace (CHR ''/'') (CHR ''_'') filepath)"
    by (simp add: cache_filename_def)
next
  show "CHR ''/'' \<notin> set (replace (CHR ''/'') (CHR ''_'') filepath)"
    by (rule replace_no_old) simp
next
  show "length (replace (CHR ''/'') (CHR ''_'') filepath) = length filepath"
    by (simp add: replace_def)
next
  show "(cache_filename ref1 filepath = cache_filename ref2 filepath) = (ref1 = ref2)"
    by (simp add: cache_filename_def)
next
  assume "\<forall>tag. release_lookup (http_get e (length (events w)) (releases_url ''acme'' ''widgets''))
                \<noteq> Inr (Some tag)"
  then have "parse_github_path e ''gh:acme/widgets/config.yaml'' w
           = (Inr (''acme'', ''widgets'', ''master'', ''config.yaml''),
              emit (HttpGet (releases_url ''acme'' ''widgets'')) w)"
    by (rule parse_plain_master)
  then have "last (events (snd (fetch_github_file e ''gh:acme/widgets/config.yaml'' cache_dir w)))
           = Retrieve (raw_url ''acme'' ''widgets'' ''master'' ''config.yaml'') cache_dir
               (cache_filename ''master'' ''config.yaml'')"
    by (rule fetch_last_event)
  then show "\<exists>url. last (events (snd (fetch_github_file e ''gh:acme/widgets/config.yaml'' cache_dir w)))
           = Retrieve url cache_dir ''master_config.yaml''"
    by (simp add: cache_filename_def replace_def)
next
  show "\<exists>url. events (snd (fetch_project_data e repo' branch filepath cache_dir w))
                ! length (events w)
         = Retrieve url cache_dir (replace (CHR ''/'') (CHR ''_'') filepath)"
    using fetch_project_data_event [of e repo' branch filepath cache_dir w] by blast
qed

theorem cache_filename_by_version_witness:
  "parse_github_path online ''gh:easyscience/peasy@master/docs/project.yaml'' w0
     = (Inr (''easyscience'', ''peasy'', ''master'', ''docs/project.yaml''), w0)
   \<and> (\<exists>url. last (events (snd (fetch_github_file online
                 ''gh:easyscience/peasy@master/docs/project.yaml'' ''/cache'' w0)))
         = Retrieve url ''/cache'' ''master_docs_project.yaml'')
   \<and> (\<forall>tag. release_lookup (http_get offline (length (events w0))
                 (releases_url ''acme'' ''widgets'')) \<noteq> Inr (Some tag))
   \<and> (\<exists>url. last (events (snd (fetch_github_file offline ''gh:acme/widgets/config.yaml''
                 ''/cache'' w0)))
         = Retrieve url ''/cache'' ''master_config.yaml'')"
proof -
  have h1: "parse_github_path online ''gh:easyscience/peasy@master/docs/project.yaml'' w0
     = (Inr (''easyscience'', ''peasy'', ''master'', ''docs/project.yaml''), w0)"
    by (simp add: parse_github_path_def splitn_def split_def)
  have h2: "\<forall>tag. release_lookup (http_get offline (length (events w0))
                 (releases_url ''acme'' ''widgets'')) \<noteq> Inr (Some tag)"
    by (simp add: offline_def)
  from cache_filename_by_version [of online "''gh:easyscience/peasy@master/docs/project.yaml''"
      w0 "''easyscience''" "''peasy''" "''master''" "''docs/project.yaml''" w0 "''/cache''"]
    cache_filename_by_version [of offline _ w0 _ _ _ _ _ "''/cache''"]
  show ?thesis using h1 h2 by (simp add: replace_def)
qed

text \<open>
  C6 as stated fails for \<open>fetch_project_data\<close>: the branches \<open>master\<close> and \<open>dev\<close> are
  fetched from different URLs into the same cache filename \<open>config.yaml\<close>.
\<close>

theorem update_cache_filename_ignores_branch:
  "''master'' \<noteq> ''dev''
   \<and> events (snd (fetch_project_data online ''acme/widgets'' ''master'' ''config.yaml''
                     ''/cache'' w0)) ! 0
     = Retrieve ''https://raw.githubusercontent.com/acme/widgets/refs/heads/master/config.yaml''
         ''/cache'' ''config.yaml''
   \<and> events (snd (fetch_project_data online ''acme/widgets'' ''dev'' ''config.yaml''
                     ''/cache'' w0)) ! 0
     = Retrieve ''https://raw.githubusercontent.com/acme/widgets/refs/heads/dev/config.yaml''
         ''/cache'' ''config.yaml''"
  by (simp add: fetch_project_data_def retrieve_def emit_def online_def w0_def replace_def Let_def)

section \<open>The command forwarder\<close>

lemma scan_args_dangling:
  "scan_args pre c g = Some r \<Longrightarrow> scan_args (pre @ [''--gh-data'']) c g = None"
proof (induction pre c g rule: scan_args.induct)
  case (1 c g)
  show ?case by simp
next
  case (2 arg rest c g)
  show ?case
  proof (cases "arg = ''--gh-data''")
    case True
    with 2 show ?thesis by (cases rest) auto
  next
    case False
    with 2 show ?thesis by simp
  qed
qed

lemma scan_args_plain:
  "''--gh-data'' \<notin> set args \<Longrightarrow> scan_args args c g = Some (c @ args, g)"
  by (induction args arbitrary: c) auto

text \<open>
  C8. When \<open>--gh-data\<close> is the last command-line argument and is read as the option (the
  arguments before it are read to their end, so that it is not the value of an earlier
  \<open>--gh-data\<close>; in particular when \<open>--gh-data\<close> does not occur before), \<open>main\<close> returns 1
  and its only effect is the usage message: no request, no retrieval, no directory, no
  subprocess.
\<close>

theorem missing_value_is_usage_error:
  "(scan_args pre [] None = Some (copier_args, github_data) \<longrightarrow>
      main e (prog # pre @ [''--gh-data'']) w = (1, emit (Print MsgUsage) w))
   \<and> (''--gh-data'' \<notin> set pre \<longrightarrow>
      main e (prog # pre @ [''--gh-data'']) w = (1, emit (Print MsgUsage) w))"
proof (intro conjI impI)
  assume "scan_args pre [] None = Some (copier_args, github_data)"
  then have "scan_args (pre @ [''--gh-data'']) [] None = None" by (rule scan_args_dangling)
  then show "main e (prog # pre @ [''--gh-data'']) w = (1, emit (Print MsgUsage) w)"
    by (simp add: main_def)
next
  assume "''--gh-data'' \<notin> set pre"
  then have "scan_args pre [] None = Some ([] @ pre, None)" by (rule scan_args_plain)
  then have "scan_args (pre @ [''--gh-data'']) [] None = None" by (rule scan_args_dangling)
  then show "main e (prog # pre @ [''--gh-data'']) w = (1, emit (Print MsgUsage) w)"
    by (simp add: main_def)
qed

theorem missing_value_is_usage_error_witness:
  "scan_args [''update'', ''--answers-file'', ''a.yml''] [] None
     = Some ([''update'', ''--answers-file'', ''a.yml''], None)
   \<and> fst (main online [''copier_wrapper.py'', ''update'', ''--answers-file'', ''a.yml'',
                        ''--gh-data''] w0) = 1
   \<and> events (snd (main online [''copier_wrapper.py'', ''update'', ''--answers-file'', ''a.yml'',
                                ''--gh-data''] w0)) = [Print MsgUsage]"
proof -
  have h: "scan_args [''update'', ''--answers-file'', ''a.yml''] [] None
     = Some ([''update'', ''--answers-file'', ''a.yml''], None)"
    by simp
  from missing_value_is_usage_error [of "[''update'', ''--answers-file'', ''a.yml'']"
      "[''update'', ''--answers-file'', ''a.yml'']" None online "''copier_wrapper.py''" w0]
  show ?thesis using h by (simp add: emit_def w0_def)
qed

lemma fetch_data_parse_failure:
  "fst (parse_github_path e d w) = Inl ex \<Longrightarrow> fst (fetch_data e d w) = Inl ex"
  by (cases "parse_github_path e d w") (auto simp: fetch_data_def)

lemma fetch_data_after_parse:
  assumes "parse_github_path e d w = (Inr (owner, repo, ref, filepath), w1)"
  shows "fetch_data e d w =
    (case mkdir e (cache_dir_of e owner repo) of
       Some ex \<Rightarrow> (Inl ex, emit (Mkdir (cache_dir_of e owner repo)) w1)
     | None \<Rightarrow> fetch_github_file e d (cache_dir_of e owner repo)
                 (emit (Mkdir (cache_dir_of e owner repo)) w1))"
  using assms by (simp add: fetch_data_def Let_def)

lemma main_fetch_failure:
  assumes "scan_args (drop 1 argv) [] None = Some (args, Some d)"
    and "prefix ''gh:'' d" and "fst (fetch_data e d w) = Inl ex"
  shows "fst (main e argv w) = 1"
proof -
  from assms(2) have "d \<noteq> []" by auto
  with assms show ?thesis
    by (cases "fetch_data e d w") (auto simp: main_def)
qed

text \<open>
  C7. The value \<open>main\<close> returns, which \<open>sys.exit\<close> makes the exit status, is 1 when
  \<open>--gh-data\<close> has no value, when the reference is not parsed, and when the cache directory
  cannot be made or the fetch fails. In every other case \<open>main\<close> runs copier (with the
  arguments passed through, followed by \<open>--data-file\<close> and the local path when there is
  a data file) and returns what that call gives: the return code of the subprocess,
  unchanged, so 0 when copier succeeds; and 1 when copier is not found, or when
  \<open>subprocess.run\<close> raises another exception, so that no return code exists.
\<close>

theorem main_exit_status:
  "(scan_args (drop 1 argv) [] None = None \<longrightarrow> fst (main e argv w) = 1)
   \<and> (scan_args (drop 1 argv) [] None = Some (args, Some d) \<and> prefix ''gh:'' d \<and>
        fst (parse_github_path e d w) = Inl ex \<longrightarrow> fst (main e argv w) = 1)
   \<and> (scan_args (drop 1 argv) [] None = Some (args, Some d) \<and> prefix ''gh:'' d \<and>
        parse_github_path e d w = (Inr (owner, repo, ref, filepath), w1) \<and>
        mkdir e (cache_dir_of e owner repo) = Some ex \<longrightarrow> fst (main e argv w) = 1)
   \<and> (scan_args (drop 1 argv) [] None = Some (args, Some d) \<and> prefix ''gh:'' d \<and>
        parse_github_path e d w = (Inr (owner, repo, ref, filepath), w1) \<and>
        mkdir e (cache_dir_of e owner repo) = None \<and>
        fst (fetch_github_file e d (cache_dir_of e owner repo)
               (emit (Mkdir (cache_dir_of e owner repo)) w1)) = Inl ex
        \<longrightarrow> fst (main e argv w) = 1)
   \<and> (scan_args (drop 1 argv) [] None = Some (args, None) \<longrightarrow>
        fst (main e argv w) = fst (call_copier e args w))
   \<and> (scan_args (drop 1 argv) [] None = Some (args, Some []) \<longrightarrow>
        fst (main e argv w) = fst (call_copier e args w))
   \<and> (scan_args (drop 1 argv) [] None = Some (args, Some d) \<and> d \<noteq> [] \<and> \<not> prefix ''gh:'' d \<longrightarrow>
        fst (main e argv w) = fst (call_copier e (args @ [''--data-file'', d]) w))
   \<and> (scan_args (drop 1 argv) [] None = Some (args, Some d) \<and> prefix ''gh:'' d \<and>
        fetch_data e d w = (Inr local_file, w2) \<longrightarrow>
        fst (main e argv w) =
          fst (call_copier e (args @ [''--data-file'', local_file]) (emit (Print MsgBlank) w2)))
   \<and> fst (call_copier e cargs w') =
        (case subprocess_run e (''copier'' # cargs) of
           Completed returncode \<Rightarrow> returncode
         | RaisesFileNotFound \<Rightarrow> 1
         | RaisesOther ex' \<Rightarrow> 1)"
proof (intro conjI impI)
  assume "scan_args (drop 1 argv) [] None = None"
  then show "fst (main e argv w) = 1" by (simp add: main_def)
next
  assume "scan_args (drop 1 argv) [] None = Some (args, Some d) \<and> prefix ''gh:'' d \<and>
        fst (parse_github_path e d w) = Inl ex"
  then show "fst (main e argv w) = 1"
    using main_fetch_failure fetch_data_parse_failure by blast
next
  assume a: "scan_args (drop 1 argv) [] None = Some (args, Some d) \<and> prefix ''gh:'' d \<and>
        parse_github_path e d w = (Inr (owner, repo, ref, filepath), w1) \<and>
        mkdir e (cache_dir_of e owner repo) = Some ex"
  then have "fst (fetch_data e d w) = Inl ex" by (simp add: fetch_data_after_parse)
  with a show "fst (main e argv w) = 1" using main_fetch_failure by blast
next
  assume a: "scan_args (drop 1 argv) [] None = Some (args, Some d) \<and> prefix ''gh:'' d \<and>
        parse_github_path e d w = (Inr (owner, repo, ref, filepath), w1) \<and>
        mkdir e (cache_dir_of e owner repo) = None \<and>
        fst (fetch_github_file e d (cache_dir_of e owner repo)
               (emit (Mkdir (cache_dir_of e owner repo)) w1)) = Inl ex"
  then have "fst (fetch_data e d w) = Inl ex" by (simp add: fetch_data_after_parse)
  with a show "fst (main e argv w) = 1" using main_fetch_failure by blast
next
  assume "scan_args (drop 1 argv) [] None = Some (args, None)"
  then show "fst (main e argv w) = fst (call_copier e args w)" by (simp add: main_def)
next
  assume "scan_args (drop 1 argv) [] None = Some (args, Some [])"
  then show "fst (main e argv w) = fst (call_copier e args w)" by (simp add: main_def)
next
  assume "scan_args (drop 1 argv) [] None = Some (args, Some d) \<and> d \<noteq> [] \<and> \<not> prefix ''gh:'' d"
  then show "fst (main e argv w) = fst (call_copier e (args @ [''--data-file'', d]) w)"
    by (simp add: main_def)
next
  assume a: "scan_args (drop 1 argv) [] None = Some (args, Some d) \<and> prefix ''gh:'' d \<and>
        fetch_data e d w = (Inr local_file, w2)"
  then have "d \<noteq> []" by auto
  with a show "fst (main e argv w) =
          fst (call_copier e (args @ [''--data-file'', local_file]) (emit (Print MsgBlank) w2))"
    by (simp add: main_def)
next
  show "fst (call_copier e cargs w') =
        (case subprocess_run e (''copier'' # cargs) of
           Completed returncode \<Rightarrow> returncode
         | RaisesFileNotFound \<Rightarrow> 1
         | RaisesOther ex' \<Rightarrow> 1)"
    by (simp add: call_copier_def Let_def split: proc_result.splits)
qed


theorem main_exit_status_witness:
  "fst (main online [''copier_wrapper.py'', ''--gh-data''] w0) = 1
   \<and> fst (main online [''copier_wrapper.py'', ''copy'', ''--gh-data'', ''gh:bad''] w0) = 1
   \<and> fst (main offline [''copier_wrapper.py'', ''update'', ''--gh-data'',
                         ''gh:acme/widgets@dev/config.yaml''] w0) = 1
   \<and> fst (main (online\<lparr>subprocess_run := \<lambda>a. RaisesFileNotFound\<rparr>)
             [''copier_wrapper.py'', ''update''] w0) = 1
   \<and> fst (main online [''copier_wrapper.py'', ''update'', ''--gh-data'',
                        ''gh:acme/widgets@dev/config.yaml''] w0) = 0
   \<and> fst (main (online\<lparr>subprocess_run := \<lambda>a. Completed 3\<rparr>)
             [''copier_wrapper.py'', ''update'', ''--gh-data'', ''local.yaml''] w0) = 3"
proof (intro conjI)
  have "scan_args (drop 1 [''copier_wrapper.py'', ''--gh-data'']) [] None = None" by simp
  with main_exit_status [where argv = "[''copier_wrapper.py'', ''--gh-data'']" and e = online
      and w = w0]
  show "fst (main online [''copier_wrapper.py'', ''--gh-data''] w0) = 1" by blast
next
  have "scan_args (drop 1 [''copier_wrapper.py'', ''copy'', ''--gh-data'', ''gh:bad'']) [] None
          = Some ([''copy''], Some ''gh:bad'')"
    and "prefix ''gh:'' ''gh:bad''"
    and "fst (parse_github_path online ''gh:bad'' w0)
          = Inl (format_error ''gh:bad'' ''gh:owner/repo/filepath'')"
    by (simp_all add: parse_github_path_def splitn_def)
  with main_exit_status [where argv = "[''copier_wrapper.py'', ''copy'', ''--gh-data'', ''gh:bad'']"
      and e = online and w = w0 and args = "[''copy'']" and d = "''gh:bad''"
      and ex = "format_error ''gh:bad'' ''gh:owner/repo/filepath''"]
  show "fst (main online [''copier_wrapper.py'', ''copy'', ''--gh-data'', ''gh:bad''] w0) = 1"
    by blast
next
  have "scan_args (drop 1 [''copier_wrapper.py'', ''update'', ''--gh-data'',
                         ''gh:acme/widgets@dev/config.yaml'']) [] None
          = Some ([''update''], Some ''gh:acme/widgets@dev/config.yaml'')"
    and "prefix ''gh:'' ''gh:acme/widgets@dev/config.yaml''"
    and p: "parse_github_path offline ''gh:acme/widgets@dev/config.yaml'' w0
          = (Inr (''acme'', ''widgets'', ''dev'', ''config.yaml''), w0)"
    and "mkdir offline (cache_dir_of offline ''acme'' ''widgets'') = None"
    by (simp_all add: parse_github_path_def splitn_def split_def offline_def)
  moreover have "fst (fetch_github_file offline ''gh:acme/widgets@dev/config.yaml''
               (cache_dir_of offline ''acme'' ''widgets'')
               (emit (Mkdir (cache_dir_of offline ''acme'' ''widgets'')) w0)) = Inl DownloadError"
    by (simp add: fetch_github_file_def parse_github_path_def splitn_def split_def Let_def
          retrieve_def exists_def emit_def w0_def offline_def cache_dir_of_def)
  ultimately show "fst (main offline [''copier_wrapper.py'', ''update'', ''--gh-data'',
                         ''gh:acme/widgets@dev/config.yaml''] w0) = 1"
    using main_exit_status [where argv = "[''copier_wrapper.py'', ''update'', ''--gh-data'',
                         ''gh:acme/widgets@dev/config.yaml'']"
      and e = offline and w = w0 and args = "[''update'']"
      and d = "''gh:acme/widgets@dev/config.yaml''" and ex = DownloadError
      and owner = "''acme''" and repo = "''widgets''" and ref = "''dev''"
      and filepath = "''config.yaml''" and ?w1.0 = w0]
    by blast
next
  have "scan_args (drop 1 [''copier_wrapper.py'', ''update'']) [] None = Some ([''update''], None)"
    by simp
  with main_exit_status [where argv = "[''copier_wrapper.py'', ''update'']"
      and e = "online\<lparr>subprocess_run := \<lambda>a. RaisesFileNotFound\<rparr>" and w = w0
      and args = "[''update'']" and cargs = "[''update'']" and w' = w0]
  show "fst (main (online\<lparr>subprocess_run := \<lambda>a. RaisesFileNotFound\<rparr>)
             [''copier_wrapper.py'', ''update''] w0) = 1"
    by simp
next
  have "scan_args (drop 1 [''copier_wrapper.py'', ''update'', ''--gh-data'',
                        ''gh:acme/widgets@dev/config.yaml'']) [] None
          = Some ([''update''], Some ''gh:acme/widgets@dev/config.yaml'')"
    and "prefix ''gh:'' ''gh:acme/widgets@dev/config.yaml''"
    by simp_all
  moreover have "\<exists>w2. fetch_data online ''gh:acme/widgets@dev/config.yaml'' w0
          = (Inr ''/home/user/.cache/acme/widgets/dev_config.yaml'', w2)"
    by (simp add: fetch_data_def fetch_github_file_def parse_github_path_def splitn_def split_def
          Let_def retrieve_def exists_def emit_def w0_def online_def cache_dir_of_def
          cache_filename_def replace_def is_release_tag_def release_tag_re_def Opt_def Plus_def
          is_digit_def)
  then obtain w2 where "fetch_data online ''gh:acme/widgets@dev/config.yaml'' w0
          = (Inr ''/home/user/.cache/acme/widgets/dev_config.yaml'', w2)" by blast
  ultimately have "fst (main online [''copier_wrapper.py'', ''update'', ''--gh-data'',
                        ''gh:acme/widgets@dev/config.yaml''] w0)
        = fst (call_copier online
                 ([''update''] @ [''--data-file'', ''/home/user/.cache/acme/widgets/dev_config.yaml''])
                 (emit (Print MsgBlank) w2))"
    using main_exit_status [where argv = "[''copier_wrapper.py'', ''update'', ''--gh-data'',
                        ''gh:acme/widgets@dev/config.yaml'']"
      and e = online and w = w0 and args = "[''update'']"
      and d = "''gh:acme/widgets@dev/config.yaml''"
      and local_file = "''/home/user/.cache/acme/widgets/dev_config.yaml''" and ?w2.0 = w2]
    by blast
  also have "\<dots> = 0"
    using main_exit_status [where e = online
      and cargs = "[''update''] @ [''--data-file'', ''/home/user/.cache/acme/widgets/dev_config.yaml'']"
      and w' = "emit (Print MsgBlank) w2"]
    by (simp add: online_def)
  finally show "fst (main online [''copier_wrapper.py'', ''update'', ''--gh-data'',
                        ''gh:acme/widgets@dev/config.yaml''] w0) = 0" .
next
  have "scan_args (drop 1 [''copier_wrapper.py'', ''update'', ''--gh-data'', ''local.yaml''])
          [] None = Some ([''update''], Some ''local.yaml'')"
    and "''local.yaml'' \<noteq> []" and "\<not> prefix ''gh:'' ''local.yaml''"
    by simp_all
  then have "fst (main (online\<lparr>subprocess_run := \<lambda>a. Completed 3\<rparr>)
             [''copier_wrapper.py'', ''update'', ''--gh-data'', ''local.yaml''] w0)
        = fst (call_copier (online\<lparr>subprocess_run := \<lambda>a. Completed 3\<rparr>)
                 ([''update''] @ [''--data-file'', ''local.yaml'']) w0)"
    using main_exit_status [where argv = "[''copier_wrapper.py'', ''update'', ''--gh-data'',
                        ''local.yaml'']"
      and e = "online\<lparr>subprocess_run := \<lambda>a. Completed 3\<rparr>" and w = w0
      and args = "[''update'']" and d = "''local.yaml''"]
    by blast
  also have "\<dots> = 3"
    using main_exit_status [where e = "online\<lparr>subprocess_run := \<lambda>a. Completed 3\<rparr>"
      and cargs = "[''update''] @ [''--data-file'', ''local.yaml'']" and w' = w0]
    by simp
  finally show "fst (main (online\<lparr>subprocess_run := \<lambda>a. Completed 3\<rparr>)
             [''copier_wrapper.py'', ''update'', ''--gh-data'', ''local.yaml''] w0) = 3" .
qed

section \<open>Where the version is resolved\<close>











end
